theory Spec2Isabelle
  imports Main "HOL-Library.Word"
begin

section \<open>Python values\<close>

text \<open>
  The two handlers receive an event that the host has already decoded from JSON, so an
  event is a Python value built from \<open>None\<close>, booleans, integers, floats, strings,
  lists and dictionaries with string keys.

  A Python \<open>str\<close> is a sequence of Unicode code points (each below \<open>0x110000\<close>,
  surrogates included), so a string is a list of code points here. \<open>ustr\<close> turns an
  ASCII literal of the theory into such a string.

  A float is kept as its 64 IEEE-754 bits; the handlers only ever test it for truth
  and print it. A dictionary is the list of its items in insertion order, looked up
  with \<open>map_of\<close>.
\<close>

type_synonym pystr = "nat list"

type_synonym pyfloat = "64 word"

datatype pyval =
    PNone
  | PBool bool
  | PInt int
  | PFloat pyfloat
  | PStr pystr
  | PList "pyval list"
  | PDict "(pystr \<times> pyval) list"

text \<open>The only exception either handler can meet: \<open>.get\<close> on a value that has no such attribute.\<close>

datatype py_error = AttributeError

definition ustr :: "string \<Rightarrow> pystr" where
  "ustr s = map of_char s"

definition valid_str :: "pystr \<Rightarrow> bool" where
  "valid_str s = list_all (\<lambda>c. c < 0x110000) s"

text \<open>\<open>sep.join(parts)\<close>.\<close>

fun join_str :: "pystr \<Rightarrow> pystr list \<Rightarrow> pystr" where
  "join_str sep [] = []"
| "join_str sep [x] = x"
| "join_str sep (x # y # ys) = x @ sep @ join_str sep (y # ys)"

text \<open>Truth value of a value, as \<open>if v:\<close> tests it. A float is false when it is \<open>0.0\<close> or \<open>-0.0\<close>, that is when all bits but the sign are zero.\<close>

fun truthy :: "pyval \<Rightarrow> bool" where
  "truthy PNone = False"
| "truthy (PBool b) = b"
| "truthy (PInt i) = (i \<noteq> 0)"
| "truthy (PFloat f) = (take_bit 63 f \<noteq> 0)"
| "truthy (PStr s) = (s \<noteq> [])"
| "truthy (PList xs) = (xs \<noteq> [])"
| "truthy (PDict kvs) = (kvs \<noteq> [])"

text \<open>
  \<open>obj.get(key, default)\<close>: only a dictionary has the method; on every other value of
  the data model the attribute lookup raises \<open>AttributeError\<close>.
\<close>

fun py_get :: "pyval \<Rightarrow> pystr \<Rightarrow> pyval \<Rightarrow> py_error + pyval" where
  "py_get (PDict kvs) key dflt = Inr (case map_of kvs key of None \<Rightarrow> dflt | Some v \<Rightarrow> v)"
| "py_get _ key dflt = Inl AttributeError"

subsection \<open>Formatting a value inside an f-string\<close>

text \<open>
  \<open>f"{name}"\<close> calls \<open>format(name, "")\<close>, which is \<open>str(name)\<close> for every value of
  the data model: a string is inserted as it is, any other value by its \<open>repr\<close>.
  Two builtins of the interpreter are not part of the repository and are taken as
  parameters: the \<open>repr\<close> of a float (shortest round-trip decimal) and the \<open>repr\<close> of
  a string nested in a list or dictionary (quoting that depends on the Unicode
  database). The interpreter's optional limit on the digits of an integer conversion
  is not modelled.
\<close>

record py_builtins =
  float_repr :: "pyfloat \<Rightarrow> pystr"
  str_repr :: "pystr \<Rightarrow> pystr"

fun dec_digits :: "nat \<Rightarrow> pystr" where
  "dec_digits n = (if n < 10 then [48 + n] else dec_digits (n div 10) @ [48 + n mod 10])"

declare dec_digits.simps [simp del]

definition int_str :: "int \<Rightarrow> pystr" where
  "int_str i = (if i < 0 then 45 # dec_digits (nat (- i)) else dec_digits (nat i))"

fun py_repr :: "py_builtins \<Rightarrow> pyval \<Rightarrow> pystr" where
  "py_repr rt PNone = ustr ''None''"
| "py_repr rt (PBool b) = (if b then ustr ''True'' else ustr ''False'')"
| "py_repr rt (PInt i) = int_str i"
| "py_repr rt (PFloat f) = float_repr rt f"
| "py_repr rt (PStr s) = str_repr rt s"
| "py_repr rt (PList xs) =
     ustr ''['' @ join_str (ustr '', '') (map (py_repr rt) xs) @ ustr '']''"
| "py_repr rt (PDict kvs) =
     ustr ''{'' @ join_str (ustr '', '')
        (map (\<lambda>kv. str_repr rt (fst kv) @ ustr '': '' @ py_repr rt (snd kv)) kvs) @ ustr ''}''"

fun py_format :: "py_builtins \<Rightarrow> pyval \<Rightarrow> pystr" where
  "py_format rt (PStr s) = s"
| "py_format rt v = py_repr rt v"

section \<open>The plain handler (non-proxy-lambda-processor.py)\<close>

text \<open>
  \<^verbatim>\<open>
  def lambda_handler(event, context):
      name = event.get('name', 'World')
      return {
          "greeting": f"Hello from non-proxy, {name}!"
      }
  \<close>
\<close>

definition lambda_handler_non_proxy :: "py_builtins \<Rightarrow> pyval \<Rightarrow> 'c \<Rightarrow> py_error + pyval" where
  "lambda_handler_non_proxy rt event context =
     (case py_get event (ustr ''name'') (PStr (ustr ''World'')) of
        Inl e \<Rightarrow> Inl e
      | Inr name \<Rightarrow>
          Inr (PDict [(ustr ''greeting'',
                 PStr (ustr ''Hello from non-proxy, '' @ py_format rt name @ ustr ''!''))]))"

section \<open>JSON text\<close>

subsection \<open>\<open>json.dumps\<close> on a dictionary of strings\<close>

text \<open>
  The proxy handler passes \<open>json.dumps\<close> a dictionary whose keys and values are
  strings, with the default options: \<open>ensure_ascii=True\<close>, item separator \<open>", "\<close>,
  key separator \<open>": "\<close>, keys in insertion order. The library escapes a string
  character by character: backslash and the double quote get a backslash, the control
  characters \<open>\b \f \n \r \t\<close> their short form, every other character outside
  \<open>' '..'~'\<close> the form \<open>\uXXXX\<close> in lower-case hexadecimal, and a character
  beyond \<open>0xFFFF\<close> a surrogate pair of two such forms
  (\<open>0xd800 | (n >> 10) & 0x3ff\<close> and \<open>0xdc00 | n & 0x3ff\<close> for
  \<open>n = ord(c) - 0x10000\<close>, written here with \<open>div\<close> and \<open>mod\<close>).
\<close>

definition hex_digit :: "nat \<Rightarrow> nat" where
  "hex_digit d = (if d < 10 then 48 + d else 87 + d)"

definition u_escape :: "nat \<Rightarrow> pystr" where
  "u_escape n =
     [92, 117, hex_digit (n div 4096 mod 16), hex_digit (n div 256 mod 16),
      hex_digit (n div 16 mod 16), hex_digit (n mod 16)]"

definition escape_char :: "nat \<Rightarrow> pystr" where
  "escape_char c =
     (if c = 92 then [92, 92]
      else if c = 34 then [92, 34]
      else if c = 8 then [92, 98]
      else if c = 12 then [92, 102]
      else if c = 10 then [92, 110]
      else if c = 13 then [92, 114]
      else if c = 9 then [92, 116]
      else if 32 \<le> c \<and> c \<le> 126 then [c]
      else if c < 0x10000 then u_escape c
      else u_escape (0xd800 + (c - 0x10000) div 1024 mod 1024)
           @ u_escape (0xdc00 + (c - 0x10000) mod 1024))"

definition encode_basestring_ascii :: "pystr \<Rightarrow> pystr" where
  "encode_basestring_ascii s = 34 # concat (map escape_char s) @ [34]"

definition dumps_item :: "pystr \<times> pystr \<Rightarrow> pystr" where
  "dumps_item kv =
     encode_basestring_ascii (fst kv) @ ustr '': '' @ encode_basestring_ascii (snd kv)"

definition json_dumps :: "(pystr \<times> pystr) list \<Rightarrow> pystr" where
  "json_dumps items =
     ustr ''{'' @ join_str (ustr '', '') (map dumps_item items) @ ustr ''}''"

subsection \<open>Decoding a JSON object of strings\<close>

text \<open>
  The claims speak of the body "once JSON-decoded". The decoder below is the part of
  \<open>json.loads\<close> that reads an object whose values are strings: it skips white space
  as the library does, scans strings with every escape of the JSON grammar, joins an
  escaped high surrogate with the escaped low surrogate that follows it, and refuses
  a raw control character inside a string. A value that is not a string is outside
  this fragment and gives \<open>None\<close>. The result is the list of the object's members in
  textual order.
\<close>

definition hex_val :: "nat \<Rightarrow> nat option" where
  "hex_val c =
     (if 48 \<le> c \<and> c \<le> 57 then Some (c - 48)
      else if 97 \<le> c \<and> c \<le> 102 then Some (c - 87)
      else if 65 \<le> c \<and> c \<le> 70 then Some (c - 55)
      else None)"

definition decode_uXXXX :: "pystr \<Rightarrow> nat option" where
  "decode_uXXXX s =
     (case s of
        a # b # c # d # _ \<Rightarrow>
          (case (hex_val a, hex_val b, hex_val c, hex_val d) of
             (Some x, Some y, Some z, Some w) \<Rightarrow> Some (((x * 16 + y) * 16 + z) * 16 + w)
           | _ \<Rightarrow> None)
      | _ \<Rightarrow> None)"

text \<open>The table of one-letter escapes: \<open>\" \\ \/ \b \f \n \r \t\<close>.\<close>

definition backslash :: "nat \<Rightarrow> nat option" where
  "backslash e =
     (if e = 34 then Some 34
      else if e = 92 then Some 92
      else if e = 47 then Some 47
      else if e = 98 then Some 8
      else if e = 102 then Some 12
      else if e = 110 then Some 10
      else if e = 114 then Some 13
      else if e = 116 then Some 9
      else None)"

definition is_high_surrogate :: "nat \<Rightarrow> bool" where
  "is_high_surrogate c = (0xd800 \<le> c \<and> c \<le> 0xdbff)"

definition is_low_surrogate :: "nat \<Rightarrow> bool" where
  "is_low_surrogate c = (0xdc00 \<le> c \<and> c \<le> 0xdfff)"

definition cons_result :: "nat \<Rightarrow> (pystr \<times> pystr) option \<Rightarrow> (pystr \<times> pystr) option" where
  "cons_result c r = (case r of None \<Rightarrow> None | Some (s, rest) \<Rightarrow> Some (c # s, rest))"

text \<open>
  \<open>scanstring\<close> starts after the opening quote and returns the decoded string with
  the text that follows the closing quote.
\<close>

fun scanstring :: "pystr \<Rightarrow> (pystr \<times> pystr) option" where
  "scanstring [] = None"
| "scanstring (c # cs) =
     (if c = 34 then Some ([], cs)
      else if c = 92 then
        (case cs of
           [] \<Rightarrow> None
         | e # es \<Rightarrow>
             if e = 117 then
               (case decode_uXXXX es of
                  None \<Rightarrow> None
                | Some uni \<Rightarrow>
                    if is_high_surrogate uni \<and> take 2 (drop 4 es) = [92, 117] then
                      (case decode_uXXXX (drop 6 es) of
                         None \<Rightarrow> None
                       | Some uni2 \<Rightarrow>
                           if is_low_surrogate uni2 then
                             cons_result (0x10000 + ((uni - 0xd800) * 1024 + (uni2 - 0xdc00)))
                               (scanstring (drop 10 es))
                           else cons_result uni (scanstring (drop 4 es)))
                    else cons_result uni (scanstring (drop 4 es)))
             else
               (case backslash e of
                  None \<Rightarrow> None
                | Some ch \<Rightarrow> cons_result ch (scanstring es)))
      else if c < 32 then None
      else cons_result c (scanstring cs))"

definition is_ws :: "nat \<Rightarrow> bool" where
  "is_ws c = (c = 32 \<or> c = 9 \<or> c = 10 \<or> c = 13)"

definition skip_ws :: "pystr \<Rightarrow> pystr" where
  "skip_ws s = dropWhile is_ws s"

text \<open>
  The members of an object, from the opening quote of a key to the closing brace.
  Every member consumes text, so the length of the text is enough fuel.
\<close>

fun parse_members :: "nat \<Rightarrow> pystr \<Rightarrow> ((pystr \<times> pystr) list \<times> pystr) option" where
  "parse_members 0 s = None"
| "parse_members (Suc n) s =
     (case s of
        [] \<Rightarrow> None
      | c # cs \<Rightarrow>
          if c \<noteq> 34 then None
          else
            (case scanstring cs of
               None \<Rightarrow> None
             | Some (key, r1) \<Rightarrow>
                 (case skip_ws r1 of
                    [] \<Rightarrow> None
                  | c2 # r2 \<Rightarrow>
                      if c2 \<noteq> 58 then None
                      else
                        (case skip_ws r2 of
                           [] \<Rightarrow> None
                         | c3 # r3 \<Rightarrow>
                             if c3 \<noteq> 34 then None
                             else
                               (case scanstring r3 of
                                  None \<Rightarrow> None
                                | Some (val, r4) \<Rightarrow>
                                    (case skip_ws r4 of
                                       [] \<Rightarrow> None
                                     | c5 # r5 \<Rightarrow>
                                         if c5 = 125 then Some ([(key, val)], r5)
                                         else if c5 = 44 then
                                           (case parse_members n (skip_ws r5) of
                                              None \<Rightarrow> None
                                            | Some (ps, r) \<Rightarrow> Some ((key, val) # ps, r))
                                         else None))))))"

definition json_loads :: "pystr \<Rightarrow> (pystr \<times> pystr) list option" where
  "json_loads text =
     (case skip_ws text of
        [] \<Rightarrow> None
      | c # cs \<Rightarrow>
          if c \<noteq> 123 then None
          else
            (case skip_ws cs of
               [] \<Rightarrow> None
             | d # ds \<Rightarrow>
                 if d = 125 then (if skip_ws ds = [] then Some [] else None)
                 else
                   (case parse_members (length text) (d # ds) of
                      None \<Rightarrow> None
                    | Some (ps, r) \<Rightarrow> if skip_ws r = [] then Some ps else None)))"

text \<open>
  A string that the host decoded from JSON text in UTF-8 holds code points below
  \<open>0x110000\<close> and never a high surrogate directly followed by a low surrogate: the
  decoder joins such a pair into one character.
\<close>

fun no_surrogate_pair :: "pystr \<Rightarrow> bool" where
  "no_surrogate_pair (a # b # cs) =
     (\<not> (is_high_surrogate a \<and> is_low_surrogate b) \<and> no_surrogate_pair (b # cs))"
| "no_surrogate_pair _ = True"

definition json_str :: "pystr \<Rightarrow> bool" where
  "json_str s = (valid_str s \<and> no_surrogate_pair s)"

section \<open>The proxy handler (http-get-lamda-function..py)\<close>

text \<open>
  \<^verbatim>\<open>
  def lambda_handler(event, context):
      name = "World"
      if event.get('queryStringParameters'):
          name = event.get('queryStringParameters').get('name', name)

      response_data = {
          "message": f"Hello, {name}! Your request was successful.",
          "status": "success"
      }

      return {
          "statusCode": 200,
          "headers": {"Content-Type": "application/json"},
          "body": json.dumps(response_data)
      }
  \<close>
  The model follows the local variables of the source: \<open>http_get_name\<close> is the value
  bound to \<open>name\<close> after the \<open>if\<close> (or the exception raised on the way),
  \<open>http_get_response_data\<close> the dictionary \<open>response_data\<close>. The event is not
  changed between the two calls of \<open>event.get\<close>, so both give the same value.
\<close>

definition http_get_name :: "pyval \<Rightarrow> py_error + pyval" where
  "http_get_name event =
     (case py_get event (ustr ''queryStringParameters'') PNone of
        Inl e \<Rightarrow> Inl e
      | Inr q \<Rightarrow>
          if truthy q then py_get q (ustr ''name'') (PStr (ustr ''World''))
          else Inr (PStr (ustr ''World'')))"

definition http_get_response_data :: "py_builtins \<Rightarrow> pyval \<Rightarrow> (pystr \<times> pystr) list" where
  "http_get_response_data rt name =
     [(ustr ''message'',
        ustr ''Hello, '' @ py_format rt name @ ustr ''! Your request was successful.''),
      (ustr ''status'', ustr ''success'')]"

definition lambda_handler_http_get :: "py_builtins \<Rightarrow> pyval \<Rightarrow> 'c \<Rightarrow> py_error + pyval" where
  "lambda_handler_http_get rt event context =
     (case http_get_name event of
        Inl e \<Rightarrow> Inl e
      | Inr name \<Rightarrow>
          Inr (PDict
            [(ustr ''statusCode'', PInt 200),
             (ustr ''headers'',
                PDict [(ustr ''Content-Type'', PStr (ustr ''application/json''))]),
             (ustr ''body'', PStr (json_dumps (http_get_response_data rt name)))]))"

section \<open>Predicates and sample parameters used in the statements\<close>

text \<open>A dictionary of strings all of which the host could have decoded from JSON.\<close>

definition json_items :: "(pystr \<times> pystr) list \<Rightarrow> bool" where
  "json_items items = list_all (\<lambda>kv. json_str (fst kv) \<and> json_str (snd kv)) items"

text \<open>
  JSON text as the host receives it: the decoding of UTF-8 bytes, which holds no
  surrogate code point.
\<close>

definition utf8_text :: "pystr \<Rightarrow> bool" where
  "utf8_text t = list_all (\<lambda>c. c < 0x110000 \<and> \<not> is_high_surrogate c \<and> \<not> is_low_surrogate c) t"

text \<open>
  A character that \<open>json.dumps\<close> writes as it is: printable ASCII other than the double
  quote and the backslash.
\<close>

definition plain_char :: "nat \<Rightarrow> bool" where
  "plain_char c = (32 \<le> c \<and> c \<le> 126 \<and> c \<noteq> 34 \<and> c \<noteq> 92)"

text \<open>
  An instance of the two interpreter builtins for evaluating examples: a nested string
  of plain characters is printed between single quotes, as \<open>repr\<close> does; no example
  prints a float.
\<close>

definition sample_builtins :: py_builtins where
  "sample_builtins = \<lparr>float_repr = (\<lambda>f. []), str_repr = (\<lambda>s. 39 # s @ [39])\<rparr>"

section \<open>Round trip of the string encoder and decoder\<close>

lemma hex_val_hex_digit: "d < 16 \<Longrightarrow> hex_val (hex_digit d) = Some d"
  by (auto simp: hex_val_def hex_digit_def)

lemma hex4_value:
  fixes n :: nat
  assumes "n < 65536"
  shows "((n div 4096 mod 16 * 16 + n div 256 mod 16) * 16 + n div 16 mod 16) * 16 + n mod 16 = n"
proof -
  have a: "n div 4096 < 16" using assms by simp
  have b: "n div 4096 = n div 256 div 16" by (simp add: div_mult2_eq)
  have c: "n div 256 = n div 16 div 16" by (simp add: div_mult2_eq)
  have "n div 4096 mod 16 * 16 + n div 256 mod 16 = n div 256"
    using a by (simp add: b)
  moreover have "n div 256 * 16 + n div 16 mod 16 = n div 16"
    by (simp add: c)
  ultimately show ?thesis by simp
qed

lemma decode_hex4:
  assumes "a < 16" "b < 16" "c < 16" "d < 16"
  shows "decode_uXXXX (hex_digit a # hex_digit b # hex_digit c # hex_digit d # xs) =
           Some (((a * 16 + b) * 16 + c) * 16 + d)"
  using assms by (simp add: decode_uXXXX_def hex_val_hex_digit)

lemma decode_u_escape:
  assumes "n < 65536"
  shows "decode_uXXXX (drop 2 (u_escape n) @ xs) = Some n"
proof -
  have "drop 2 (u_escape n) @ xs =
          hex_digit (n div 4096 mod 16) # hex_digit (n div 256 mod 16)
            # hex_digit (n div 16 mod 16) # hex_digit (n mod 16) # xs"
    by (simp add: u_escape_def)
  moreover have "decode_uXXXX (hex_digit (n div 4096 mod 16) # hex_digit (n div 256 mod 16)
            # hex_digit (n div 16 mod 16) # hex_digit (n mod 16) # xs) =
      Some (((n div 4096 mod 16 * 16 + n div 256 mod 16) * 16 + n div 16 mod 16) * 16 + n mod 16)"
    by (rule decode_hex4) simp_all
  ultimately show ?thesis by (simp only: hex4_value [OF assms])
qed

lemma scan_plain:
  "32 \<le> c \<Longrightarrow> c \<noteq> 34 \<Longrightarrow> c \<noteq> 92 \<Longrightarrow> scanstring (c # cs) = cons_result c (scanstring cs)"
  by simp

lemma scan_short:
  "e \<noteq> 117 \<Longrightarrow> backslash e = Some ch \<Longrightarrow> scanstring (92 # e # es) = cons_result ch (scanstring es)"
  by simp

lemma scan_u_single:
  "decode_uXXXX es = Some uni \<Longrightarrow> \<not> (is_high_surrogate uni \<and> take 2 (drop 4 es) = [92, 117]) \<Longrightarrow>
   scanstring (92 # 117 # es) = cons_result uni (scanstring (drop 4 es))"
  by auto

lemma scan_u_unpaired:
  "decode_uXXXX es = Some uni \<Longrightarrow> decode_uXXXX (drop 6 es) = Some uni2 \<Longrightarrow>
   \<not> is_low_surrogate uni2 \<Longrightarrow>
   scanstring (92 # 117 # es) = cons_result uni (scanstring (drop 4 es))"
  by simp

lemma scan_u_pair:
  "decode_uXXXX es = Some uni \<Longrightarrow> is_high_surrogate uni \<Longrightarrow> take 2 (drop 4 es) = [92, 117] \<Longrightarrow>
   decode_uXXXX (drop 6 es) = Some uni2 \<Longrightarrow> is_low_surrogate uni2 \<Longrightarrow>
   scanstring (92 # 117 # es) =
     cons_result (0x10000 + ((uni - 0xd800) * 1024 + (uni2 - 0xdc00))) (scanstring (drop 10 es))"
  by simp

lemma drop_u_escape:
  "drop 4 (drop 2 (u_escape n) @ xs) = xs"
  "drop 6 (drop 2 (u_escape n) @ xs) = drop 2 xs"
  "take 2 (drop 4 (drop 2 (u_escape n) @ xs)) = take 2 xs"
  by (simp_all add: u_escape_def)

lemma drop_u_escape_pair:
  "drop 6 (drop 2 (u_escape a) @ u_escape b @ xs) = drop 2 (u_escape b) @ xs"
  "drop 10 (drop 2 (u_escape a) @ u_escape b @ xs) = xs"
  "take 2 (drop 4 (drop 2 (u_escape a) @ u_escape b @ xs)) = [92, 117]"
  by (simp_all add: u_escape_def)

lemma surrogate_halves:
  fixes c :: nat
  assumes "65536 \<le> c" "c < 1114112"
  defines "hi \<equiv> 55296 + (c - 65536) div 1024 mod 1024"
    and "lo \<equiv> 56320 + (c - 65536) mod 1024"
  shows "is_high_surrogate hi" "is_low_surrogate lo" "hi < 65536" "lo < 65536"
    "65536 + ((hi - 55296) * 1024 + (lo - 56320)) = c" "\<not> is_low_surrogate hi"
proof -
  have m: "(c - 65536) mod 1024 < 1024" by simp
  have d: "(c - 65536) div 1024 mod 1024 < 1024" by simp
  show "is_high_surrogate hi" using d by (simp add: is_high_surrogate_def hi_def)
  show "is_low_surrogate lo" using m by (simp add: is_low_surrogate_def lo_def)
  show "hi < 65536" using d by (simp add: hi_def)
  show "lo < 65536" using m by (simp add: lo_def)
  show "\<not> is_low_surrogate hi" using d by (simp add: is_low_surrogate_def hi_def)
  have "(c - 65536) div 1024 < 1024" using assms by simp
  then have "(c - 65536) div 1024 mod 1024 = (c - 65536) div 1024" by simp
  then have "(hi - 55296) * 1024 + (lo - 56320) = c - 65536"
    by (simp add: hi_def lo_def)
  then show "65536 + ((hi - 55296) * 1024 + (lo - 56320)) = c" using assms by simp
qed

lemma escape_char_cases [case_names short plain single pair]:
  obtains
    (short) e where "escape_char c = [92, e]" "e \<noteq> 117" "backslash e = Some c"
  | (plain) "escape_char c = [c]" "32 \<le> c" "c \<noteq> 34" "c \<noteq> 92"
  | (single) "escape_char c = u_escape c" "c < 65536"
  | (pair) "escape_char c = u_escape (55296 + (c - 65536) div 1024 mod 1024)
                            @ u_escape (56320 + (c - 65536) mod 1024)" "65536 \<le> c"
proof -
  consider "c = 92" | "c = 34" | "c = 8" | "c = 12" | "c = 10" | "c = 13" | "c = 9"
    | "c \<notin> {92, 34, 8, 12, 10, 13, 9}" "32 \<le> c \<and> c \<le> 126"
    | "c \<notin> {92, 34, 8, 12, 10, 13, 9}" "\<not> (32 \<le> c \<and> c \<le> 126)" "c < 65536"
    | "c \<notin> {92, 34, 8, 12, 10, 13, 9}" "\<not> (32 \<le> c \<and> c \<le> 126)" "\<not> c < 65536"
    by blast
  then show thesis
  proof cases
    case 1 then show ?thesis by (intro short [of 92]) (simp_all add: escape_char_def backslash_def)
  next
    case 2 then show ?thesis by (intro short [of 34]) (simp_all add: escape_char_def backslash_def)
  next
    case 3 then show ?thesis by (intro short [of 98]) (simp_all add: escape_char_def backslash_def)
  next
    case 4 then show ?thesis by (intro short [of 102]) (simp_all add: escape_char_def backslash_def)
  next
    case 5 then show ?thesis by (intro short [of 110]) (simp_all add: escape_char_def backslash_def)
  next
    case 6 then show ?thesis by (intro short [of 114]) (simp_all add: escape_char_def backslash_def)
  next
    case 7 then show ?thesis by (intro short [of 116]) (simp_all add: escape_char_def backslash_def)
  next
    case 8 then show ?thesis by (intro plain) (simp_all add: escape_char_def)
  next
    case 9 then show ?thesis by (intro single) (auto simp: escape_char_def)
  next
    case 10 then show ?thesis by (intro pair) (auto simp: escape_char_def)
  qed
qed

lemma no_surrogate_pair_tl: "no_surrogate_pair (c # s) \<Longrightarrow> no_surrogate_pair s"
  by (cases s) simp_all

lemma valid_str_Cons: "valid_str (c # s) = (c < 1114112 \<and> valid_str s)"
  by (simp add: valid_str_def)

lemma escaped_next_unit:
  assumes "valid_str s"
    and "take 2 (concat (map escape_char s) @ 34 # rest) = [92, 117]"
  shows "\<exists>c s' u. s = c # s'
           \<and> decode_uXXXX (drop 2 (concat (map escape_char s) @ 34 # rest)) = Some u
           \<and> (is_low_surrogate u \<longrightarrow> u = c)"
proof (cases s)
  case Nil
  with assms(2) show ?thesis by simp
next
  case (Cons c s')
  let ?T = "concat (map escape_char s') @ 34 # rest"
  have enc: "concat (map escape_char s) @ 34 # rest = escape_char c @ ?T"
    using Cons by simp
  have c: "c < 1114112" using assms(1) Cons by (simp add: valid_str_Cons)
  show ?thesis
  proof (cases c rule: escape_char_cases)
    case (short e)
    with assms(2) enc show ?thesis by simp
  next
    case plain
    with assms(2) enc show ?thesis by simp
  next
    case single
    have "decode_uXXXX (drop 2 (u_escape c @ ?T)) = Some c"
      using decode_u_escape [OF single(2), of ?T] by (simp add: u_escape_def)
    with Cons enc single(1) show ?thesis by simp
  next
    case pair
    let ?hi = "55296 + (c - 65536) div 1024 mod 1024"
    let ?lo = "56320 + (c - 65536) mod 1024"
    have "decode_uXXXX (drop 2 (u_escape ?hi @ u_escape ?lo @ ?T)) = Some ?hi"
      using decode_u_escape [OF surrogate_halves(3) [OF pair(2) c], of "u_escape ?lo @ ?T"]
      by (simp add: u_escape_def)
    moreover have "\<not> is_low_surrogate ?hi"
      by (rule surrogate_halves(6) [OF pair(2) c])
    ultimately show ?thesis using Cons enc pair(1) by simp
  qed
qed

lemma cons_result_Some: "cons_result c (Some (s, rest)) = Some (c # s, rest)"
  by (simp add: cons_result_def)

lemma scanstring_escaped:
  assumes "valid_str s" and "no_surrogate_pair s"
  shows "scanstring (concat (map escape_char s) @ 34 # rest) = Some (s, rest)"
  using assms
proof (induction s)
  case Nil
  show ?case by simp
next
  case (Cons c s')
  let ?T = "concat (map escape_char s') @ 34 # rest"
  have c: "c < 1114112" and v: "valid_str s'"
    using Cons.prems(1) by (simp_all add: valid_str_Cons)
  have IH: "scanstring ?T = Some (s', rest)"
    using Cons.IH [OF v no_surrogate_pair_tl [OF Cons.prems(2)]] .
  have enc: "concat (map escape_char (c # s')) @ 34 # rest = escape_char c @ ?T"
    by simp
  have "scanstring (escape_char c @ ?T) = Some (c # s', rest)"
  proof (cases c rule: escape_char_cases)
    case (short e)
    have "scanstring (92 # e # ?T) = cons_result c (scanstring ?T)"
      using short(2,3) by (rule scan_short)
    then show ?thesis by (simp add: short(1) IH cons_result_Some)
  next
    case plain
    have "scanstring (c # ?T) = cons_result c (scanstring ?T)"
      using plain(2,3,4) by (rule scan_plain)
    then show ?thesis by (simp add: plain(1) IH cons_result_Some)
  next
    case single
    let ?es = "drop 2 (u_escape c) @ ?T"
    have shape: "escape_char c @ ?T = 92 # 117 # ?es"
      by (simp add: single(1) u_escape_def)
    have dec: "decode_uXXXX ?es = Some c"
      by (rule decode_u_escape [OF single(2)])
    have "scanstring (92 # 117 # ?es) = cons_result c (scanstring (drop 4 ?es))"
    proof (cases "is_high_surrogate c \<and> take 2 ?T = [92, 117]")
      case False
      then have "\<not> (is_high_surrogate c \<and> take 2 (drop 4 ?es) = [92, 117])"
        by (simp only: drop_u_escape simp_thms)
      with dec show ?thesis by (rule scan_u_single)
    next
      case True
      then obtain c2 s'' u where s': "s' = c2 # s''"
        and dec2: "decode_uXXXX (drop 2 ?T) = Some u"
        and low: "is_low_surrogate u \<longrightarrow> u = c2"
        using escaped_next_unit [OF v, of rest] by blast
      have "\<not> (is_high_surrogate c \<and> is_low_surrogate c2)"
        using Cons.prems(2) s' by simp
      with True low have "\<not> is_low_surrogate u" by blast
      moreover have "decode_uXXXX (drop 6 ?es) = Some u"
        using dec2 by (simp only: drop_u_escape simp_thms)
      ultimately show ?thesis using dec by (intro scan_u_unpaired)
    qed
    then show ?thesis by (simp only: shape drop_u_escape IH cons_result_Some)
  next
    case pair
    let ?hi = "55296 + (c - 65536) div 1024 mod 1024"
    let ?lo = "56320 + (c - 65536) mod 1024"
    let ?es = "drop 2 (u_escape ?hi) @ u_escape ?lo @ ?T"
    note halves = surrogate_halves [OF pair(2) c]
    have shape: "escape_char c @ ?T = 92 # 117 # ?es"
      by (simp add: pair(1) u_escape_def)
    have dec: "decode_uXXXX ?es = Some ?hi"
      by (rule decode_u_escape [OF halves(3)])
    have dec2: "decode_uXXXX (drop 6 ?es) = Some ?lo"
      by (simp only: drop_u_escape_pair decode_u_escape [OF halves(4)])
    have "scanstring (92 # 117 # ?es) =
            cons_result (0x10000 + ((?hi - 0xd800) * 1024 + (?lo - 0xdc00)))
              (scanstring (drop 10 ?es))"
      using dec halves(1) drop_u_escape_pair(3) dec2 halves(2) by (rule scan_u_pair)
    also have "0x10000 + ((?hi - 0xd800) * 1024 + (?lo - 0xdc00)) = c"
      by (rule halves(5))
    also have "drop 10 ?es = ?T"
      by (rule drop_u_escape_pair(2))
    finally show ?thesis by (simp only: shape IH cons_result_Some)
  qed
  with enc show ?case by simp
qed

section \<open>Round trip of an object of strings\<close>

lemma ustr_seps:
  "ustr '': '' = [58, 32]" "ustr '', '' = [44, 32]" "ustr ''{'' = [123]" "ustr ''}'' = [125]"
  by (simp_all add: ustr_def)

lemma skip_ws_keep: "\<not> is_ws c \<Longrightarrow> skip_ws (c # cs) = c # cs"
  by (simp add: skip_ws_def)

lemma skip_ws_space: "skip_ws (32 # cs) = skip_ws cs"
  by (simp add: skip_ws_def is_ws_def)

lemma skip_ws_Nil: "skip_ws [] = []"
  by (simp add: skip_ws_def)

lemma not_ws: "\<not> is_ws 34" "\<not> is_ws 58" "\<not> is_ws 125" "\<not> is_ws 44" "\<not> is_ws 123"
  by (simp_all add: is_ws_def)

lemma dumps_item_shape:
  "dumps_item (k, v) @ rest =
     34 # (concat (map escape_char k) @ 34 # 58 # 32 # 34 # (concat (map escape_char v) @ 34 # rest))"
  by (simp add: dumps_item_def encode_basestring_ascii_def ustr_seps)

lemma parse_member_step:
  assumes "json_str k" "json_str v" "\<not> is_ws c"
  shows "parse_members (Suc n) (dumps_item (k, v) @ c # r) =
           (if c = 125 then Some ([(k, v)], r)
            else if c = 44 then
              (case parse_members n (skip_ws r) of
                 None \<Rightarrow> None
               | Some (ps, r') \<Rightarrow> Some ((k, v) # ps, r'))
            else None)"
proof -
  have k: "scanstring (concat (map escape_char k) @ 34 # rest) = Some (k, rest)" for rest
    using assms(1) by (simp add: json_str_def scanstring_escaped)
  have v: "scanstring (concat (map escape_char v) @ 34 # rest) = Some (v, rest)" for rest
    using assms(2) by (simp add: json_str_def scanstring_escaped)
  show ?thesis
    by (simp only: dumps_item_shape parse_members.simps list.case k v option.case prod.case
          skip_ws_keep [OF not_ws(2)] skip_ws_space skip_ws_keep [OF not_ws(1)]
          skip_ws_keep [OF assms(3)] simp_thms if_True if_False)
qed

lemma dumps_item_hd: "\<exists>t. dumps_item kv @ rest = 34 # t"
  by (simp add: dumps_item_def encode_basestring_ascii_def)

lemma join_items_hd:
  "items \<noteq> [] \<Longrightarrow> \<exists>t. join_str sep (map dumps_item items) @ rest = 34 # t"
proof (induction items rule: induct_list012)
  case 1
  then show ?case by simp
next
  case (2 x)
  show ?case using dumps_item_hd [of x rest] by simp
next
  case (3 x y zs)
  show ?case using dumps_item_hd [of x "sep @ join_str sep (map dumps_item (y # zs)) @ rest"]
    by simp
qed

lemma parse_members_dumps:
  assumes "items \<noteq> []" "json_items items" "length items \<le> n"
  shows "parse_members n (join_str [44, 32] (map dumps_item items) @ 125 # r) = Some (items, r)"
  using assms
proof (induction items arbitrary: n rule: induct_list012)
  case 1
  then show ?case by simp
next
  case (2 x)
  obtain k v where x: "x = (k, v)" by (cases x)
  obtain m where n: "n = Suc m" using 2(3) by (cases n) simp_all
  have kv: "json_str k" "json_str v" using 2(2) x by (simp_all add: json_items_def)
  have "parse_members (Suc m) (dumps_item (k, v) @ 125 # r) = Some ([(k, v)], r)"
    by (simp only: parse_member_step [OF kv not_ws(3)] simp_thms if_True)
  then show ?case by (simp add: x n)
next
  case (3 x y zs)
  obtain k v where x: "x = (k, v)" by (cases x)
  obtain m where n: "n = Suc m" using 3(5) by (cases n) simp_all
  let ?J = "join_str [44, 32] (map dumps_item (y # zs)) @ 125 # r"
  have kv: "json_str k" "json_str v" and rest: "json_items (y # zs)"
    using 3(4) x by (simp_all add: json_items_def)
  have len: "length (y # zs) \<le> m" using 3(5) n by simp
  have IH: "parse_members m ?J = Some (y # zs, r)"
    using 3(2) [OF _ rest len] by simp
  obtain t where t: "?J = 34 # t"
    using join_items_hd [of "y # zs" "[44, 32]" "125 # r"] by blast
  have skip: "skip_ws (32 # ?J) = ?J"
    by (simp only: skip_ws_space t skip_ws_keep [OF not_ws(1)])
  have "parse_members (Suc m) (dumps_item (k, v) @ 44 # 32 # ?J) = Some ((k, v) # y # zs, r)"
    by (simp only: parse_member_step [OF kv not_ws(4)] skip IH) simp
  moreover have "join_str [44, 32] (map dumps_item (x # y # zs)) @ 125 # r
      = dumps_item (k, v) @ 44 # 32 # ?J"
    by (simp add: x)
  ultimately show ?case by (simp only: n x)
qed

lemma length_join_items: "length items \<le> length (join_str sep (map dumps_item items))"
proof (induction items rule: induct_list012)
  case 1
  show ?case by simp
next
  case (2 x)
  show ?case by (simp add: dumps_item_def encode_basestring_ascii_def)
next
  case (3 x y zs)
  have "1 \<le> length (dumps_item x)" by (simp add: dumps_item_def encode_basestring_ascii_def)
  with 3(2) show ?case by simp
qed

lemma json_loads_dumps:
  assumes "json_items items"
  shows "json_loads (json_dumps items) = Some items"
proof (cases "items = []")
  case True
  then show ?thesis
    by (simp add: json_loads_def json_dumps_def ustr_seps skip_ws_keep not_ws skip_ws_Nil)
next
  case False
  let ?J = "join_str [44, 32] (map dumps_item items) @ [125]"
  obtain t where t: "?J = 34 # t"
    using join_items_hd [OF False, of "[44, 32]" "[125]"] by blast
  have dumps: "json_dumps items = 123 # ?J"
    by (simp add: json_dumps_def ustr_seps)
  have "length items \<le> length (123 # ?J)"
    using length_join_items [of items "[44, 32]"] by simp
  then have "parse_members (length (123 # ?J)) ?J = Some (items, [])"
    by (rule parse_members_dumps [OF False assms])
  then have "parse_members (length (123 # 34 # t)) (34 # t) = Some (items, [])"
    by (simp only: t)
  then have "json_loads (123 # 34 # t) = Some items"
    by (simp add: json_loads_def skip_ws_keep not_ws skip_ws_Nil)
  then show ?thesis by (simp only: dumps t)
qed

section \<open>Strings of plain characters\<close>

lemma escape_plain: "plain_char c \<Longrightarrow> escape_char c = [c]"
  by (auto simp: plain_char_def escape_char_def)

lemma escape_plain_str: "list_all plain_char s \<Longrightarrow> concat (map escape_char s) = s"
  by (induction s) (simp_all add: escape_plain)

lemma plain_ustr:
  "list_all plain_char (ustr ''Hello, '')"
  "list_all plain_char (ustr ''! Your request was successful.'')"
  "list_all plain_char (ustr ''message'')"
  "list_all plain_char (ustr ''status'')"
  "list_all plain_char (ustr ''success'')"
  "list_all plain_char (ustr ''World'')"
  by (simp_all add: ustr_def plain_char_def)

lemma not_high_no_pair: "\<not> is_high_surrogate c \<Longrightarrow> no_surrogate_pair (c # s) = no_surrogate_pair s"
  by (cases s) simp_all

lemma plain_not_surrogate:
  "plain_char c \<Longrightarrow> \<not> is_high_surrogate c \<and> \<not> is_low_surrogate c \<and> c < 1114112"
  by (simp add: plain_char_def is_high_surrogate_def is_low_surrogate_def)

lemma no_pair_plain_prefix:
  "list_all plain_char a \<Longrightarrow> no_surrogate_pair (a @ s) = no_surrogate_pair s"
  by (induction a) (simp_all add: not_high_no_pair plain_not_surrogate)

lemma no_pair_plain_suffix:
  "list_all plain_char b \<Longrightarrow> no_surrogate_pair s \<Longrightarrow> no_surrogate_pair (s @ b)"
proof (induction s rule: induct_list012)
  case 1
  then show ?case using no_pair_plain_prefix [of b "[]"] by simp
next
  case (2 x)
  have "no_surrogate_pair b" using 2(1) no_pair_plain_prefix [of b "[]"] by simp
  with 2(1) show ?case by (cases b) (simp_all add: plain_not_surrogate)
next
  case (3 x y zs)
  then show ?case by simp
qed

lemma valid_str_append: "valid_str (a @ b) = (valid_str a \<and> valid_str b)"
  by (simp add: valid_str_def)

lemma plain_valid: "list_all plain_char s \<Longrightarrow> valid_str s"
  by (induction s) (simp_all add: valid_str_def plain_not_surrogate)

lemma json_str_plain: "list_all plain_char s \<Longrightarrow> json_str s"
  using no_pair_plain_prefix [of s "[]"] by (simp add: json_str_def plain_valid)

lemma json_str_wrap:
  assumes "list_all plain_char a" "list_all plain_char b" "json_str s"
  shows "json_str (a @ s @ b)"
  using assms
  by (simp add: json_str_def valid_str_append plain_valid no_pair_plain_prefix no_pair_plain_suffix)

lemma response_data_json:
  "json_str s \<Longrightarrow> json_items
     [(ustr ''message'', ustr ''Hello, '' @ s @ ustr ''! Your request was successful.''),
      (ustr ''status'', ustr ''success'')]"
  by (simp add: json_items_def json_str_plain plain_ustr json_str_wrap)

section \<open>The handlers, step by step\<close>

lemma escape_concat3:
  "concat (map escape_char (a @ s @ b)) =
     concat (map escape_char a) @ concat (map escape_char s) @ concat (map escape_char b)"
  by simp

lemma dumps_response_data:
  \<open>json_dumps (http_get_response_data rt v) =
     ustr ''{"message": "Hello, '' @ concat (map escape_char (py_format rt v))
       @ ustr ''! Your request was successful.", "status": "success"}''\<close>
proof -
  have "json_dumps (http_get_response_data rt v) =
      [123, 34] @ ustr ''message'' @ [34, 58, 32, 34] @ ustr ''Hello, ''
        @ concat (map escape_char (py_format rt v)) @ ustr ''! Your request was successful.''
        @ [34, 44, 32, 34] @ ustr ''status'' @ [34, 58, 32, 34] @ ustr ''success'' @ [34, 125]"
    by (simp add: json_dumps_def http_get_response_data_def dumps_item_def
        encode_basestring_ascii_def escape_concat3 escape_plain_str plain_ustr ustr_seps
        del: map_append concat_append)
  then show ?thesis by (simp add: ustr_def)
qed

lemma http_get_name_dict:
  "http_get_name (PDict kvs) =
     (case map_of kvs (ustr ''queryStringParameters'') of
        None \<Rightarrow> Inr (PStr (ustr ''World''))
      | Some q \<Rightarrow>
          if truthy q then py_get q (ustr ''name'') (PStr (ustr ''World''))
          else Inr (PStr (ustr ''World'')))"
  by (simp add: http_get_name_def split: option.split)

lemma handler_of_name:
  \<open>http_get_name event = Inr v \<Longrightarrow>
   lambda_handler_http_get rt event ctx =
     Inr (PDict
       [(ustr ''statusCode'', PInt 200),
        (ustr ''headers'', PDict [(ustr ''Content-Type'', PStr (ustr ''application/json''))]),
        (ustr ''body'', PStr (json_dumps (http_get_response_data rt v)))])\<close>
  by (simp add: lambda_handler_http_get_def)

lemma handler_of_error:
  "http_get_name event = Inl e \<Longrightarrow> lambda_handler_http_get rt event ctx = Inl e"
  by (simp add: lambda_handler_http_get_def)

lemma world_body:
  \<open>json_dumps (http_get_response_data rt (PStr (ustr ''World''))) =
     ustr ''{"message": "Hello, World! Your request was successful.", "status": "success"}''\<close>
  by (simp add: dumps_response_data escape_plain_str plain_ustr) (simp add: ustr_def)

lemma non_proxy_dict:
  "lambda_handler_non_proxy rt (PDict kvs) ctx =
     Inr (PDict [(ustr ''greeting'',
        PStr (ustr ''Hello from non-proxy, ''
          @ py_format rt (case map_of kvs (ustr ''name'') of None \<Rightarrow> PStr (ustr ''World'') | Some v \<Rightarrow> v)
          @ ustr ''!''))])"
  by (simp add: lambda_handler_non_proxy_def)


lemma world_greeting: "ustr ''Hello from non-proxy, '' @ ustr ''World'' @ ustr ''!'' = ustr ''Hello from non-proxy, World!''"
  by (simp add: ustr_def)

lemma world_message: "ustr ''Hello, '' @ ustr ''World'' @ ustr ''! Your request was successful.'' = ustr ''Hello, World! Your request was successful.''"
  by (simp add: ustr_def)

lemma world_loads:
  \<open>json_loads (ustr ''{"message": "Hello, World! Your request was successful.", "status": "success"}'') =
     Some [(ustr ''message'', ustr ''Hello, World! Your request was successful.''),
           (ustr ''status'', ustr ''success'')]\<close>
proof -
  have "json_loads (json_dumps (http_get_response_data rt (PStr (ustr ''World'')))) =
          Some (http_get_response_data rt (PStr (ustr ''World'')))" for rt
    using response_data_json [OF json_str_plain [OF plain_ustr(6)]]
    by (intro json_loads_dumps) (simp add: http_get_response_data_def)
  then show ?thesis
    by (simp only: world_body) (simp add: http_get_response_data_def world_message)
qed

lemma name_defaults:
  assumes "map_of kvs (ustr ''queryStringParameters'') = None
     \<or> (\<exists>ps. map_of kvs (ustr ''queryStringParameters'') = Some (PDict ps)
              \<and> map_of ps (ustr ''name'') = None)"
  shows "http_get_name (PDict kvs) = Inr (PStr (ustr ''World''))"
  using assms by (auto simp: http_get_name_dict)

lemma name_falsy:
  assumes "map_of kvs (ustr ''queryStringParameters'') = Some q" "\<not> truthy q"
  shows "http_get_name (PDict kvs) = Inr (PStr (ustr ''World''))"
  using assms by (simp add: http_get_name_dict)

lemma ada_body:
  \<open>json_dumps (http_get_response_data rt (PStr (ustr ''Ada''))) =
     ustr ''{"message": "Hello, Ada! Your request was successful.", "status": "success"}''\<close>
proof -
  have "list_all plain_char (ustr ''Ada'')" by (simp add: ustr_def plain_char_def)
  then show ?thesis
    by (simp add: dumps_response_data escape_plain_str) (simp add: ustr_def)
qed


section \<open>What the decoder returns\<close>

text \<open>
  Every string that \<open>scanstring\<close> reads from text without surrogate code points
  satisfies \<open>json_str\<close>: an escaped surrogate may stand alone in the result, but an
  escaped high surrogate directly followed by an escaped low one is joined.
\<close>

lemma cons_result_eq_Some:
  "cons_result c x = Some (s, r) \<longleftrightarrow> (\<exists>s'. x = Some (s', r) \<and> s = c # s')"
  by (auto simp: cons_result_def split: option.splits)

lemma scanstring_SomeE:
  assumes "scanstring t = Some (s, r)"
  obtains (quote) "t = 34 # r" "s = []"
  | (plain) c t' s' where "t = c # t'" "32 \<le> c" "c \<noteq> 34" "c \<noteq> 92" "s = c # s'"
      "scanstring t' = Some (s', r)"
  | (short) e c t' s' where "t = 92 # e # t'" "e \<noteq> 117" "backslash e = Some c" "s = c # s'"
      "scanstring t' = Some (s', r)"
  | (single) es c s' where "t = 92 # 117 # es" "decode_uXXXX es = Some c" "s = c # s'"
      "scanstring (drop 4 es) = Some (s', r)"
      "\<not> (is_high_surrogate c \<and> take 2 (drop 4 es) = [92, 117]
          \<and> (\<exists>u. decode_uXXXX (drop 6 es) = Some u \<and> is_low_surrogate u))"
  | (pair) es hi lo s' where "t = 92 # 117 # es" "is_high_surrogate hi" "is_low_surrogate lo"
      "s = (65536 + ((hi - 55296) * 1024 + (lo - 56320))) # s'"
      "scanstring (drop 10 es) = Some (s', r)"
proof (cases t)
  case Nil
  with assms show ?thesis by simp
next
  case (Cons c cs)
  show ?thesis
  proof (cases "c = 34")
    case True
    with assms Cons show ?thesis by (intro quote) simp_all
  next
    case n34: False
    show ?thesis
    proof (cases "c = 92")
      case False
      with assms Cons n34 obtain s' where "32 \<le> c" "s = c # s'" "scanstring cs = Some (s', r)"
        by (auto simp: cons_result_eq_Some split: if_splits)
      with Cons n34 False show ?thesis by (intro plain [of c cs s']) simp_all
    next
      case True
      show ?thesis
      proof (cases cs)
        case Nil
        with assms Cons True show ?thesis by simp
      next
        case (Cons e es)
        note cs = Cons
        show ?thesis
        proof (cases "e = 117")
          case False
          with assms \<open>t = c # cs\<close> True cs obtain ch s' where
            "backslash e = Some ch" "s = ch # s'" "scanstring es = Some (s', r)"
            by (auto simp: cons_result_eq_Some split: option.splits)
          with \<open>t = c # cs\<close> True cs False show ?thesis
            by (intro short [of e es ch s']) simp_all
        next
          case u: True
          have t: "t = 92 # 117 # es" using \<open>t = c # cs\<close> True cs u by simp
          from assms t obtain uni where dec: "decode_uXXXX es = Some uni"
            by (auto split: option.splits)
          show ?thesis
          proof (cases "is_high_surrogate uni \<and> take 2 (drop 4 es) = [92, 117]")
            case False
            with assms t dec obtain s' where "s = uni # s'" "scanstring (drop 4 es) = Some (s', r)"
              by (auto simp: cons_result_eq_Some)
            with t dec False show ?thesis by (intro single [of es uni s']) auto
          next
            case hi: True
            with assms t dec obtain uni2 where dec2: "decode_uXXXX (drop 6 es) = Some uni2"
              by (auto split: option.splits)
            show ?thesis
            proof (cases "is_low_surrogate uni2")
              case True
              with assms t dec hi dec2 obtain s' where
                "s = (65536 + ((uni - 55296) * 1024 + (uni2 - 56320))) # s'"
                "scanstring (drop 10 es) = Some (s', r)"
                by (auto simp: cons_result_eq_Some)
              with t hi True show ?thesis by (intro pair [of es uni uni2 s']) simp_all
            next
              case False
              with assms t dec hi dec2 obtain s' where
                "s = uni # s'" "scanstring (drop 4 es) = Some (s', r)"
                by (auto simp: cons_result_eq_Some)
              with t dec dec2 False show ?thesis by (intro single [of es uni s']) auto
            qed
          qed
        qed
      qed
    qed
  qed
qed

lemma hex_val_bound: "hex_val a = Some x \<Longrightarrow> x < 16"
  by (auto simp: hex_val_def split: if_splits)

lemma decode_bound:
  assumes "decode_uXXXX es = Some c"
  shows "c < 65536"
proof -
  from assms obtain a b c' d x y z w where
    "hex_val a = Some x" "hex_val b = Some y" "hex_val c' = Some z" "hex_val d = Some w"
    and c: "c = ((x * 16 + y) * 16 + z) * 16 + w"
    by (auto simp: decode_uXXXX_def split: list.splits option.splits)
  then have "x < 16" "y < 16" "z < 16" "w < 16"
    by (simp_all add: hex_val_bound)
  then show ?thesis unfolding c by simp
qed

lemma backslash_ascii: "backslash e = Some c \<Longrightarrow> c < 128"
  by (auto simp: backslash_def split: if_splits)

lemma utf8_text_drop: "utf8_text t \<Longrightarrow> utf8_text (drop n t)"
  unfolding utf8_text_def list_all_iff by (meson in_set_dropD)

lemma utf8_text_Cons:
  "utf8_text (c # t) = (c < 1114112 \<and> \<not> is_high_surrogate c \<and> \<not> is_low_surrogate c \<and> utf8_text t)"
  by (simp add: utf8_text_def)

lemma joined_range:
  assumes "is_high_surrogate hi" "is_low_surrogate lo"
  shows "65536 \<le> 65536 + ((hi - 55296) * 1024 + (lo - 56320))"
    and "65536 + ((hi - 55296) * 1024 + (lo - 56320)) < 1114112"
proof -
  show "65536 \<le> 65536 + ((hi - 55296) * 1024 + (lo - 56320))" by simp
  have "hi - 55296 \<le> 1023" "lo - 56320 \<le> 1023"
    using assms unfolding is_high_surrogate_def is_low_surrogate_def by linarith+
  then have "(hi - 55296) * 1024 \<le> 1023 * 1024" "lo - 56320 \<le> 1023"
    by simp_all
  then show "65536 + ((hi - 55296) * 1024 + (lo - 56320)) < 1114112"
    by linarith
qed

lemma no_pair_Cons:
  "no_surrogate_pair (c # s) =
     ((s = [] \<or> \<not> (is_high_surrogate c \<and> is_low_surrogate (hd s))) \<and> no_surrogate_pair s)"
  by (cases s) auto

lemma scanstring_output:
  assumes "utf8_text t" "scanstring t = Some (s, r)"
  shows "valid_str s \<and> no_surrogate_pair s
    \<and> (\<forall>c s'. s = c # s' \<and> is_low_surrogate c
          \<longrightarrow> take 2 t = [92, 117] \<and> decode_uXXXX (drop 2 t) = Some c)"
  using assms
proof (induction t arbitrary: s r rule: length_induct)
  case (1 t)
  note IH = 1(1) [rule_format]
  from 1(3) show ?case
  proof (cases rule: scanstring_SomeE)
    case quote
    then show ?thesis by (simp add: valid_str_def)
  next
    case (plain c t' s')
    have c: "c < 1114112" "\<not> is_high_surrogate c" "\<not> is_low_surrogate c" and t': "utf8_text t'"
      using 1(2) plain(1) by (simp_all add: utf8_text_Cons)
    have "valid_str s' \<and> no_surrogate_pair s'"
      using IH [of t' s' r] t' plain(1,6) by simp
    with c plain(5) show ?thesis by (simp add: valid_str_Cons no_pair_Cons)
  next
    case (short e c t' s')
    have c: "c < 128" using short(3) by (rule backslash_ascii)
    have t': "utf8_text t'" using 1(2) short(1) by (simp add: utf8_text_Cons)
    have "valid_str s' \<and> no_surrogate_pair s'"
      using IH [of t' s' r] t' short(1,5) by simp
    with c short(4) show ?thesis
      by (simp add: valid_str_Cons no_pair_Cons is_high_surrogate_def is_low_surrogate_def)
  next
    case (single es c s')
    have c: "c < 65536" using single(2) by (rule decode_bound)
    have t': "utf8_text (drop 4 es)"
      using utf8_text_drop [OF 1(2), of 6] single(1) by simp
    have len: "length (drop 4 es) < length t" using single(1) by simp
    have rec: "valid_str s' \<and> no_surrogate_pair s'
        \<and> (\<forall>c2 s2. s' = c2 # s2 \<and> is_low_surrogate c2
              \<longrightarrow> take 2 (drop 4 es) = [92, 117] \<and> decode_uXXXX (drop 2 (drop 4 es)) = Some c2)"
      using IH [OF len t' single(4)] .
    have "s' = [] \<or> \<not> (is_high_surrogate c \<and> is_low_surrogate (hd s'))"
    proof (cases s')
      case Nil
      then show ?thesis by simp
    next
      case (Cons c2 s2)
      show ?thesis
      proof (rule disjI2, rule notI)
        assume a: "is_high_surrogate c \<and> is_low_surrogate (hd s')"
        then have "take 2 (drop 4 es) = [92, 117] \<and> decode_uXXXX (drop 6 es) = Some c2"
          using rec Cons by simp
        with a Cons single(5) show False by auto
      qed
    qed
    with rec c single(1,2,3) show ?thesis
      by (simp add: valid_str_Cons no_pair_Cons)
  next
    case (pair es hi lo s')
    note range = joined_range [OF pair(2,3)]
    have t': "utf8_text (drop 10 es)"
      using utf8_text_drop [OF 1(2), of 12] pair(1) by simp
    have len: "length (drop 10 es) < length t" using pair(1) by simp
    have "valid_str s' \<and> no_surrogate_pair s'"
      using IH [OF len t' pair(5)] by simp
    with range pair(4) show ?thesis
      by (simp add: valid_str_Cons no_pair_Cons is_high_surrogate_def is_low_surrogate_def)
  qed
qed

lemma scanstring_json_str:
  "utf8_text t \<Longrightarrow> scanstring t = Some (s, r) \<Longrightarrow> json_str s"
  using scanstring_output [of t s r] by (simp add: json_str_def)

lemma joined_body:
  \<open>json_dumps (http_get_response_data rt (PStr [0x1F600])) =
     ustr ''{"message": "Hello, '' @ [92] @ ustr ''ud83d'' @ [92]
       @ ustr ''ude00! Your request was successful.", "status": "success"}''\<close>
  by (simp only: dumps_response_data py_format.simps)
     (simp add: escape_char_def u_escape_def hex_digit_def ustr_def)

lemma adjacent_surrogates_body:
  \<open>json_dumps (http_get_response_data rt (PStr [0xd83d, 0xde00])) =
     ustr ''{"message": "Hello, '' @ [92] @ ustr ''ud83d'' @ [92]
       @ ustr ''ude00! Your request was successful.", "status": "success"}''\<close>
  by (simp only: dumps_response_data py_format.simps)
     (simp add: escape_char_def u_escape_def hex_digit_def ustr_def)

section \<open>The claims\<close>

text \<open>
  Claim C1 says that for every string \<open>X\<close> under \<open>name\<close> the decoded body has the
  message \<open>"Hello, " + X + "! Your request was successful."\<close> For the two-character
  string made of the surrogates \<open>U+D83D\<close> and \<open>U+DE00\<close> it does not: \<open>json.dumps\<close>
  writes them as two \<open>\uXXXX\<close> escapes, which a JSON decoder reads as the single
  character \<open>U+1F600\<close>.
\<close>

theorem C1_counterexample:
  \<open>lambda_handler_http_get sample_builtins
      (PDict [(ustr ''queryStringParameters'', PDict [(ustr ''name'', PStr [0xd83d, 0xde00])])]) () =
     Inr (PDict
       [(ustr ''statusCode'', PInt 200),
        (ustr ''headers'', PDict [(ustr ''Content-Type'', PStr (ustr ''application/json''))]),
        (ustr ''body'', PStr (ustr ''{"message": "Hello, '' @ [92] @ ustr ''ud83d'' @ [92]
            @ ustr ''ude00! Your request was successful.", "status": "success"}''))])
   \<and> json_loads (ustr ''{"message": "Hello, '' @ [92] @ ustr ''ud83d'' @ [92]
            @ ustr ''ude00! Your request was successful.", "status": "success"}'') =
       Some [(ustr ''message'', ustr ''Hello, '' @ [0x1F600] @ ustr ''! Your request was successful.''),
             (ustr ''status'', ustr ''success'')]
   \<and> ustr ''Hello, '' @ [0x1F600] @ ustr ''! Your request was successful.''
       \<noteq> ustr ''Hello, '' @ [0xd83d, 0xde00] @ ustr ''! Your request was successful.''\<close>
proof (intro conjI)
  have "http_get_name (PDict [(ustr ''queryStringParameters'',
          PDict [(ustr ''name'', PStr [0xd83d, 0xde00])])]) = Inr (PStr [0xd83d, 0xde00])"
    by (simp add: http_get_name_dict)
  then show \<open>lambda_handler_http_get sample_builtins
      (PDict [(ustr ''queryStringParameters'', PDict [(ustr ''name'', PStr [0xd83d, 0xde00])])]) () =
     Inr (PDict
       [(ustr ''statusCode'', PInt 200),
        (ustr ''headers'', PDict [(ustr ''Content-Type'', PStr (ustr ''application/json''))]),
        (ustr ''body'', PStr (ustr ''{"message": "Hello, '' @ [92] @ ustr ''ud83d'' @ [92]
            @ ustr ''ude00! Your request was successful.", "status": "success"}''))])\<close>
    by (simp only: handler_of_name adjacent_surrogates_body)
next
  have "json_str [0x1F600]"
    by (simp add: json_str_def valid_str_def)
  then have "json_loads (json_dumps (http_get_response_data sample_builtins (PStr [0x1F600]))) =
      Some (http_get_response_data sample_builtins (PStr [0x1F600]))"
    using response_data_json [of "[0x1F600]"]
    by (intro json_loads_dumps) (simp add: http_get_response_data_def)
  then show \<open>json_loads (ustr ''{"message": "Hello, '' @ [92] @ ustr ''ud83d'' @ [92]
            @ ustr ''ude00! Your request was successful.", "status": "success"}'') =
       Some [(ustr ''message'', ustr ''Hello, '' @ [0x1F600] @ ustr ''! Your request was successful.''),
             (ustr ''status'', ustr ''success'')]\<close>
    by (simp only: joined_body) (simp add: http_get_response_data_def)
next
  show "ustr ''Hello, '' @ [0x1F600] @ ustr ''! Your request was successful.''
       \<noteq> ustr ''Hello, '' @ [0xd83d, 0xde00] @ ustr ''! Your request was successful.''"
    by simp
qed

text \<open>
  Claim C1, as the code has it. When the event's \<open>queryStringParameters\<close> entry is a
  mapping that holds a string \<open>X\<close> under \<open>name\<close>, and \<open>X\<close> has no high surrogate
  directly followed by a low surrogate (\<open>json_str\<close>, true of every string the host
  decodes from JSON), the proxy handler returns the response whose body decodes, as
  JSON, to the object with \<open>message\<close> equal to
  \<open>"Hello, " + X + "! Your request was successful."\<close> and \<open>status\<close> equal to
  \<open>"success"\<close>: \<open>X\<close> comes back unchanged, whatever else it holds and however long
  it is.
\<close>

theorem C1_body_decodes_to_greeting:
  assumes "map_of kvs (ustr ''queryStringParameters'') = Some (PDict ps)"
    and "map_of ps (ustr ''name'') = Some (PStr X)"
    and "json_str X"
  shows "\<exists>body.
     lambda_handler_http_get rt (PDict kvs) ctx =
       Inr (PDict
         [(ustr ''statusCode'', PInt 200),
          (ustr ''headers'', PDict [(ustr ''Content-Type'', PStr (ustr ''application/json''))]),
          (ustr ''body'', PStr body)])
     \<and> json_loads body =
         Some [(ustr ''message'', ustr ''Hello, '' @ X @ ustr ''! Your request was successful.''),
               (ustr ''status'', ustr ''success'')]"
proof -
  have "ps \<noteq> []" using assms(2) by auto
  then have name: "http_get_name (PDict kvs) = Inr (PStr X)"
    using assms(1,2) by (simp add: http_get_name_dict)
  have "json_loads (json_dumps (http_get_response_data rt (PStr X))) =
          Some (http_get_response_data rt (PStr X))"
    using response_data_json [OF assms(3)]
    by (intro json_loads_dumps) (simp add: http_get_response_data_def)
  then show ?thesis
    using handler_of_name [OF name, of rt ctx]
    by (simp add: http_get_response_data_def)
qed

text \<open>Scenario 2 of the specification: the name \<open>Ada\<close>.\<close>

theorem C1_witness:
  \<open>lambda_handler_http_get sample_builtins
      (PDict [(ustr ''queryStringParameters'', PDict [(ustr ''name'', PStr (ustr ''Ada''))])]) () =
     Inr (PDict
       [(ustr ''statusCode'', PInt 200),
        (ustr ''headers'', PDict [(ustr ''Content-Type'', PStr (ustr ''application/json''))]),
        (ustr ''body'', PStr (ustr
           ''{"message": "Hello, Ada! Your request was successful.", "status": "success"}''))])
   \<and> json_loads (ustr
        ''{"message": "Hello, Ada! Your request was successful.", "status": "success"}'') =
       Some [(ustr ''message'', ustr ''Hello, Ada! Your request was successful.''),
             (ustr ''status'', ustr ''success'')]\<close>
proof -
  let ?ps = "[(ustr ''name'', PStr (ustr ''Ada''))]"
  let ?kvs = "[(ustr ''queryStringParameters'', PDict ?ps)]"
  have h1: "map_of ?kvs (ustr ''queryStringParameters'') = Some (PDict ?ps)" by simp
  have h2: "map_of ?ps (ustr ''name'') = Some (PStr (ustr ''Ada''))" by simp
  have h3: "json_str (ustr ''Ada'')"
    by (rule json_str_plain) (simp add: ustr_def plain_char_def)
  obtain body where
    run: "lambda_handler_http_get sample_builtins (PDict ?kvs) () =
       Inr (PDict
         [(ustr ''statusCode'', PInt 200),
          (ustr ''headers'', PDict [(ustr ''Content-Type'', PStr (ustr ''application/json''))]),
          (ustr ''body'', PStr body)])"
    and dec: "json_loads body =
         Some [(ustr ''message'', ustr ''Hello, '' @ ustr ''Ada'' @ ustr ''! Your request was successful.''),
               (ustr ''status'', ustr ''success'')]"
    using C1_body_decodes_to_greeting [OF h1 h2 h3, of sample_builtins "()"] by blast
  have "http_get_name (PDict ?kvs) = Inr (PStr (ustr ''Ada''))"
    by (simp add: http_get_name_dict)
  then have "lambda_handler_http_get sample_builtins (PDict ?kvs) () =
       Inr (PDict
         [(ustr ''statusCode'', PInt 200),
          (ustr ''headers'', PDict [(ustr ''Content-Type'', PStr (ustr ''application/json''))]),
          (ustr ''body'', PStr (json_dumps (http_get_response_data sample_builtins (PStr (ustr ''Ada'')))))])"
    by (rule handler_of_name)
  with run have body: "body = json_dumps (http_get_response_data sample_builtins (PStr (ustr ''Ada'')))"
    by simp
  have msg: "ustr ''Hello, '' @ ustr ''Ada'' @ ustr ''! Your request was successful.''
      = ustr ''Hello, Ada! Your request was successful.''"
    by (simp add: ustr_def)
  show ?thesis using run dec by (simp only: body ada_body msg simp_thms)
qed

text \<open>
  Claim C2. An event that lacks the name gets the greeting for \<open>World\<close>. For the proxy
  handler that is an event with no \<open>queryStringParameters\<close> entry, or one whose
  \<open>queryStringParameters\<close> mapping has no \<open>name\<close>: the body is the text shown, which
  decodes to the message \<open>Hello, World! Your request was successful.\<close> For the plain
  handler it is an event with no \<open>name\<close> entry: the greeting is
  \<open>Hello from non-proxy, World!\<close>
\<close>

theorem C2_missing_name_defaults_to_World:
  \<open>((map_of kvs (ustr ''queryStringParameters'') = None
      \<or> (\<exists>ps. map_of kvs (ustr ''queryStringParameters'') = Some (PDict ps)
               \<and> map_of ps (ustr ''name'') = None))
     \<longrightarrow> lambda_handler_http_get rt (PDict kvs) ctx =
          Inr (PDict
            [(ustr ''statusCode'', PInt 200),
             (ustr ''headers'', PDict [(ustr ''Content-Type'', PStr (ustr ''application/json''))]),
             (ustr ''body'', PStr (ustr
                ''{"message": "Hello, World! Your request was successful.", "status": "success"}''))]))
   \<and> json_loads (ustr
        ''{"message": "Hello, World! Your request was successful.", "status": "success"}'') =
       Some [(ustr ''message'', ustr ''Hello, World! Your request was successful.''),
             (ustr ''status'', ustr ''success'')]
   \<and> (map_of evs (ustr ''name'') = None
     \<longrightarrow> lambda_handler_non_proxy rt (PDict evs) ctx' =
          Inr (PDict [(ustr ''greeting'', PStr (ustr ''Hello from non-proxy, World!''))]))\<close>
proof (intro conjI impI)
  assume "map_of kvs (ustr ''queryStringParameters'') = None
      \<or> (\<exists>ps. map_of kvs (ustr ''queryStringParameters'') = Some (PDict ps)
               \<and> map_of ps (ustr ''name'') = None)"
  then have "http_get_name (PDict kvs) = Inr (PStr (ustr ''World''))"
    by (rule name_defaults)
  then show \<open>lambda_handler_http_get rt (PDict kvs) ctx =
          Inr (PDict
            [(ustr ''statusCode'', PInt 200),
             (ustr ''headers'', PDict [(ustr ''Content-Type'', PStr (ustr ''application/json''))]),
             (ustr ''body'', PStr (ustr
                ''{"message": "Hello, World! Your request was successful.", "status": "success"}''))])\<close>
    by (simp only: handler_of_name world_body)
next
  show \<open>json_loads (ustr
        ''{"message": "Hello, World! Your request was successful.", "status": "success"}'') =
       Some [(ustr ''message'', ustr ''Hello, World! Your request was successful.''),
             (ustr ''status'', ustr ''success'')]\<close>
    by (rule world_loads)
next
  assume "map_of evs (ustr ''name'') = None"
  then show "lambda_handler_non_proxy rt (PDict evs) ctx' =
          Inr (PDict [(ustr ''greeting'', PStr (ustr ''Hello from non-proxy, World!''))])"
    by (simp add: non_proxy_dict world_greeting)
qed

text \<open>Scenarios 1 and 4 of the specification: the empty event.\<close>

theorem C2_witness:
  \<open>lambda_handler_http_get sample_builtins (PDict []) () =
      Inr (PDict
        [(ustr ''statusCode'', PInt 200),
         (ustr ''headers'', PDict [(ustr ''Content-Type'', PStr (ustr ''application/json''))]),
         (ustr ''body'', PStr (ustr
            ''{"message": "Hello, World! Your request was successful.", "status": "success"}''))])
   \<and> lambda_handler_non_proxy sample_builtins (PDict []) () =
      Inr (PDict [(ustr ''greeting'', PStr (ustr ''Hello from non-proxy, World!''))])\<close>
  using C2_missing_name_defaults_to_World [of "[]" sample_builtins "()" "[]" "()"]
  by simp

text \<open>
  Claim C3. When the event holds a value under the top-level key \<open>name\<close>, the plain
  handler returns exactly the one-key mapping whose \<open>greeting\<close> is
  \<open>"Hello from non-proxy, "\<close>, the value as the f-string formats it, and \<open>"!"\<close>; a
  string value \<open>X\<close> is formatted as \<open>X\<close> itself.
\<close>

theorem C3_non_proxy_greets_supplied_name:
  assumes "map_of kvs (ustr ''name'') = Some v"
  shows "lambda_handler_non_proxy rt (PDict kvs) ctx =
           Inr (PDict [(ustr ''greeting'',
             PStr (ustr ''Hello from non-proxy, '' @ py_format rt v @ ustr ''!''))])
         \<and> (\<forall>X. v = PStr X \<longrightarrow> py_format rt v = X)"
  using assms by (simp add: non_proxy_dict)

text \<open>Scenario 3 of the specification: the plain handler on the name \<open>Ada\<close>.\<close>

theorem C3_witness:
  "lambda_handler_non_proxy sample_builtins (PDict [(ustr ''name'', PStr (ustr ''Ada''))]) () =
     Inr (PDict [(ustr ''greeting'', PStr (ustr ''Hello from non-proxy, Ada!''))])"
proof -
  have "map_of [(ustr ''name'', PStr (ustr ''Ada''))] (ustr ''name'') = Some (PStr (ustr ''Ada''))"
    by simp
  from C3_non_proxy_greets_supplied_name [OF this, of sample_builtins "()"]
  show ?thesis by (simp add: ustr_def)
qed

text \<open>
  Claim C4. Whenever the proxy handler returns, the response has \<open>statusCode\<close> 200 and
  \<open>headers\<close> equal to the one-entry mapping \<open>Content-Type: application/json\<close>,
  whatever the event and the context are.
\<close>

theorem C4_status_and_headers_fixed:
  assumes "lambda_handler_http_get rt event ctx = Inr resp"
  shows "\<exists>body. resp = PDict
     [(ustr ''statusCode'', PInt 200),
      (ustr ''headers'', PDict [(ustr ''Content-Type'', PStr (ustr ''application/json''))]),
      (ustr ''body'', PStr body)]"
  using assms by (auto simp: lambda_handler_http_get_def split: sum.splits)

text \<open>The response to the empty event has these two fields.\<close>

theorem C4_witness:
  \<open>lambda_handler_http_get sample_builtins (PDict []) () =
     Inr (PDict
       [(ustr ''statusCode'', PInt 200),
        (ustr ''headers'', PDict [(ustr ''Content-Type'', PStr (ustr ''application/json''))]),
        (ustr ''body'', PStr (ustr
           ''{"message": "Hello, World! Your request was successful.", "status": "success"}''))])
   \<and> (\<exists>body. PDict
       [(ustr ''statusCode'', PInt 200),
        (ustr ''headers'', PDict [(ustr ''Content-Type'', PStr (ustr ''application/json''))]),
        (ustr ''body'', PStr (ustr
           ''{"message": "Hello, World! Your request was successful.", "status": "success"}''))]
     = PDict
       [(ustr ''statusCode'', PInt 200),
        (ustr ''headers'', PDict [(ustr ''Content-Type'', PStr (ustr ''application/json''))]),
        (ustr ''body'', PStr body)])\<close>
proof -
  have "http_get_name (PDict []) = Inr (PStr (ustr ''World''))"
    by (simp add: http_get_name_dict)
  then have run: \<open>lambda_handler_http_get sample_builtins (PDict []) () =
     Inr (PDict
       [(ustr ''statusCode'', PInt 200),
        (ustr ''headers'', PDict [(ustr ''Content-Type'', PStr (ustr ''application/json''))]),
        (ustr ''body'', PStr (ustr
           ''{"message": "Hello, World! Your request was successful.", "status": "success"}''))])\<close>
    by (simp only: handler_of_name world_body)
  from C4_status_and_headers_fixed [OF run] run show ?thesis by (intro conjI)
qed

text \<open>
  Claim C5 says that the body is, character for character, the text
  \<open>{"message": "Hello, N! Your request was successful.", "status": "success"}\<close> for the
  resolved name \<open>N\<close>. For the name \<open>a"b\<close> it is not: \<open>json.dumps\<close> writes the
  double quote as backslash, double quote.
\<close>

theorem C5_counterexample:
  \<open>lambda_handler_http_get sample_builtins
      (PDict [(ustr ''queryStringParameters'', PDict [(ustr ''name'', PStr (ustr ''a"b''))])]) () =
     Inr (PDict
       [(ustr ''statusCode'', PInt 200),
        (ustr ''headers'', PDict [(ustr ''Content-Type'', PStr (ustr ''application/json''))]),
        (ustr ''body'', PStr (ustr ''{"message": "Hello, a'' @ [92, 34]
            @ ustr ''b! Your request was successful.", "status": "success"}''))])
   \<and> ustr ''{"message": "Hello, a'' @ [92, 34]
            @ ustr ''b! Your request was successful.", "status": "success"}''
     \<noteq> ustr ''{"message": "Hello, '' @ ustr ''a"b''
            @ ustr ''! Your request was successful.", "status": "success"}''\<close>
proof -
  have "http_get_name (PDict [(ustr ''queryStringParameters'',
          PDict [(ustr ''name'', PStr (ustr ''a\"b''))])]) = Inr (PStr (ustr ''a\"b''))"
    by (simp add: http_get_name_dict)
  then show ?thesis
    by (simp only: handler_of_name dumps_response_data)
       (simp add: ustr_def escape_char_def)
qed

text \<open>
  Claim C5, as the code has it. For the value bound to \<open>name\<close>, formatted to the text
  \<open>N\<close>, the body is \<open>{"message": "Hello, E! Your request was successful.", "status":
  "success"}\<close> with \<open>message\<close> before \<open>status\<close>, one space after each colon and
  after the comma, where \<open>E\<close> is \<open>N\<close> escaped character by character as
  \<open>json.dumps\<close> does; \<open>E\<close> is \<open>N\<close> itself when every character of \<open>N\<close> is
  printable ASCII other than the double quote and the backslash.
\<close>

theorem C5_body_text:
  assumes "http_get_name event = Inr v"
  shows \<open>lambda_handler_http_get rt event ctx =
     Inr (PDict
       [(ustr ''statusCode'', PInt 200),
        (ustr ''headers'', PDict [(ustr ''Content-Type'', PStr (ustr ''application/json''))]),
        (ustr ''body'', PStr (ustr ''{"message": "Hello, ''
            @ concat (map escape_char (py_format rt v))
            @ ustr ''! Your request was successful.", "status": "success"}''))])
   \<and> (list_all plain_char (py_format rt v)
        \<longrightarrow> concat (map escape_char (py_format rt v)) = py_format rt v)\<close>
  using assms by (simp add: handler_of_name dumps_response_data escape_plain_str)

text \<open>The name \<open>Ada\<close> needs no escape.\<close>

theorem C5_witness:
  \<open>lambda_handler_http_get sample_builtins
      (PDict [(ustr ''queryStringParameters'', PDict [(ustr ''name'', PStr (ustr ''Ada''))])]) () =
     Inr (PDict
       [(ustr ''statusCode'', PInt 200),
        (ustr ''headers'', PDict [(ustr ''Content-Type'', PStr (ustr ''application/json''))]),
        (ustr ''body'', PStr (ustr ''{"message": "Hello, ''
            @ ustr ''Ada''
            @ ustr ''! Your request was successful.", "status": "success"}''))])\<close>
proof -
  have name: "http_get_name (PDict [(ustr ''queryStringParameters'',
          PDict [(ustr ''name'', PStr (ustr ''Ada''))])]) = Inr (PStr (ustr ''Ada''))"
    by (simp add: http_get_name_dict)
  have plain: "list_all plain_char (py_format sample_builtins (PStr (ustr ''Ada'')))"
    by (simp add: ustr_def plain_char_def)
  from C5_body_text [OF name, of sample_builtins "()"] plain
  show ?thesis by simp
qed

text \<open>
  Claim C6 says that the proxy handler faults whenever \<open>queryStringParameters\<close> is
  present but not a mapping. For \<open>None\<close>, which is present and not a mapping, the
  test \<open>if event.get('queryStringParameters')\<close> fails and the handler returns the
  default response.
\<close>

theorem C6_counterexample:
  \<open>lambda_handler_http_get sample_builtins
      (PDict [(ustr ''queryStringParameters'', PNone)]) () =
     Inr (PDict
       [(ustr ''statusCode'', PInt 200),
        (ustr ''headers'', PDict [(ustr ''Content-Type'', PStr (ustr ''application/json''))]),
        (ustr ''body'', PStr (ustr
           ''{"message": "Hello, World! Your request was successful.", "status": "success"}''))])\<close>
proof -
  have "http_get_name (PDict [(ustr ''queryStringParameters'', PNone)]) = Inr (PStr (ustr ''World''))"
    by (simp add: http_get_name_dict)
  then show ?thesis by (simp only: handler_of_name world_body)
qed

text \<open>
  Claim C6, as the code has it. When \<open>queryStringParameters\<close> is present, true as a
  condition and not a mapping, the call of \<open>.get\<close> on it raises \<open>AttributeError\<close>,
  which the handler lets through: no response is returned.
\<close>

theorem C6_truthy_non_mapping_faults:
  assumes "map_of kvs (ustr ''queryStringParameters'') = Some q"
    and "truthy q"
    and "\<forall>ps. q \<noteq> PDict ps"
  shows "lambda_handler_http_get rt (PDict kvs) ctx = Inl AttributeError"
proof -
  have "py_get q (ustr ''name'') (PStr (ustr ''World'')) = Inl AttributeError"
    using assms(3) by (cases q) simp_all
  then have "http_get_name (PDict kvs) = Inl AttributeError"
    using assms(1,2) by (simp add: http_get_name_dict)
  then show ?thesis by (rule handler_of_error)
qed

text \<open>A query string passed as a string instead of a mapping.\<close>

theorem C6_witness:
  "lambda_handler_http_get sample_builtins
     (PDict [(ustr ''queryStringParameters'', PStr (ustr ''name=Ada''))]) () = Inl AttributeError"
proof -
  have h1: "map_of [(ustr ''queryStringParameters'', PStr (ustr ''name=Ada''))]
              (ustr ''queryStringParameters'') = Some (PStr (ustr ''name=Ada''))" by simp
  have h2: "truthy (PStr (ustr ''name=Ada''))" by (simp add: ustr_def)
  have h3: "\<forall>ps. PStr (ustr ''name=Ada'') \<noteq> PDict ps" by simp
  show ?thesis by (rule C6_truthy_non_mapping_faults [OF h1 h2 h3])
qed

text \<open>
  Claim C7. Both handlers are functions of the event alone: two calls with the same
  event return the same result, whatever the two contexts are (they may even be of
  different types).
\<close>

theorem C7_context_ignored:
  "lambda_handler_http_get rt event (c1 :: 'a) = lambda_handler_http_get rt event (c2 :: 'b)
   \<and> lambda_handler_non_proxy rt event c1 = lambda_handler_non_proxy rt event c2"
  by (simp add: lambda_handler_http_get_def lambda_handler_non_proxy_def)

text \<open>A number and a boolean as the two contexts.\<close>

theorem C7_witness:
  "lambda_handler_http_get sample_builtins (PDict []) (0 :: nat)
     = lambda_handler_http_get sample_builtins (PDict []) True
   \<and> lambda_handler_non_proxy sample_builtins (PDict []) (0 :: nat)
     = lambda_handler_non_proxy sample_builtins (PDict []) True"
  by (rule C7_context_ignored)

text \<open>
  Claim C8. When \<open>queryStringParameters\<close> is present but false as a condition (an empty
  mapping, \<open>None\<close>, an empty string, zero), the proxy handler skips the nested lookup
  and returns the response with status 200 and the greeting for \<open>World\<close>.
\<close>

theorem C8_falsy_parameters_default:
  assumes "map_of kvs (ustr ''queryStringParameters'') = Some q"
    and "\<not> truthy q"
  shows \<open>lambda_handler_http_get rt (PDict kvs) ctx =
     Inr (PDict
       [(ustr ''statusCode'', PInt 200),
        (ustr ''headers'', PDict [(ustr ''Content-Type'', PStr (ustr ''application/json''))]),
        (ustr ''body'', PStr (ustr
           ''{"message": "Hello, World! Your request was successful.", "status": "success"}''))])\<close>
proof -
  have "http_get_name (PDict kvs) = Inr (PStr (ustr ''World''))"
    using assms by (rule name_falsy)
  then show ?thesis by (simp only: handler_of_name world_body)
qed

text \<open>The empty mapping, the empty string and zero.\<close>

theorem C8_witness:
  \<open>\<not> truthy (PDict []) \<and> \<not> truthy PNone \<and> \<not> truthy (PStr []) \<and> \<not> truthy (PInt 0)
   \<and> lambda_handler_http_get sample_builtins
        (PDict [(ustr ''queryStringParameters'', PDict [])]) () =
       Inr (PDict
         [(ustr ''statusCode'', PInt 200),
          (ustr ''headers'', PDict [(ustr ''Content-Type'', PStr (ustr ''application/json''))]),
          (ustr ''body'', PStr (ustr
             ''{"message": "Hello, World! Your request was successful.", "status": "success"}''))])
   \<and> lambda_handler_http_get sample_builtins
        (PDict [(ustr ''queryStringParameters'', PStr [])]) () =
       Inr (PDict
         [(ustr ''statusCode'', PInt 200),
          (ustr ''headers'', PDict [(ustr ''Content-Type'', PStr (ustr ''application/json''))]),
          (ustr ''body'', PStr (ustr
             ''{"message": "Hello, World! Your request was successful.", "status": "success"}''))])
   \<and> lambda_handler_http_get sample_builtins
        (PDict [(ustr ''queryStringParameters'', PInt 0)]) () =
       Inr (PDict
         [(ustr ''statusCode'', PInt 200),
          (ustr ''headers'', PDict [(ustr ''Content-Type'', PStr (ustr ''application/json''))]),
          (ustr ''body'', PStr (ustr
             ''{"message": "Hello, World! Your request was successful.", "status": "success"}''))])\<close>
  using C8_falsy_parameters_default
          [of "[(ustr ''queryStringParameters'', PDict [])]" "PDict []" sample_builtins "()"]
        C8_falsy_parameters_default
          [of "[(ustr ''queryStringParameters'', PStr [])]" "PStr []" sample_builtins "()"]
        C8_falsy_parameters_default
          [of "[(ustr ''queryStringParameters'', PInt 0)]" "PInt 0" sample_builtins "()"]
  by simp





end
